theory Spec2Isabelle
  imports Complex_Main "HOL-Library.Word"
begin

unbundle bit_operations_syntax

section \<open>JavaScript numbers and bitwise operators\<close>

text \<open>
  The worklets are JavaScript. A JavaScript number that holds an integer is modelled as
  an \<^typ>\<open>int\<close>, an audio sample as a \<^typ>\<open>real\<close>. Every bitwise operator first
  converts its operands with ToInt32 (wrap to 32 bits, read as two's complement), works
  on the 32-bit patterns and returns a signed 32-bit result; the shift count is taken
  modulo 32. ToInt32 of a number with a fraction drops the fraction (rounds towards
  zero) first.
\<close>

definition toInt32 :: "int \<Rightarrow> int" where
  "toInt32 x = signed_take_bit 31 x"

definition js_trunc :: "real \<Rightarrow> int" where
  "js_trunc x = (if x < 0 then \<lceil>x\<rceil> else \<lfloor>x\<rfloor>)"

definition js_not :: "int \<Rightarrow> int" where
  "js_not x = toInt32 (NOT (toInt32 x))"

definition js_and :: "int \<Rightarrow> int \<Rightarrow> int" where
  "js_and x y = toInt32 (toInt32 x AND toInt32 y)"

definition js_or :: "int \<Rightarrow> int \<Rightarrow> int" where
  "js_or x y = toInt32 (toInt32 x OR toInt32 y)"

definition js_shl :: "int \<Rightarrow> int \<Rightarrow> int" where
  "js_shl x n = toInt32 (push_bit (nat (toInt32 n mod 32)) (toInt32 x))"

definition js_sar :: "int \<Rightarrow> int \<Rightarrow> int" where
  "js_sar x n = drop_bit (nat (toInt32 n mod 32)) (toInt32 x)"

text \<open>A store into an \<open>Int16Array\<close> keeps the low 16 bits, read as two's complement.\<close>

definition toInt16 :: "int \<Rightarrow> int" where
  "toInt16 x = signed_take_bit 15 x"

section \<open>The decoder's table (\<open>ULawDecoderProcessor.initMuLawTable\<close>, \<open>decodeMuLaw\<close>)\<close>

text \<open>
  One iteration of the loop of \<open>initMuLawTable\<close>: the value stored at index \<open>i\<close>.
  \<^verbatim>\<open>
    let val = ~i;
    let t = ((val & 0x0F) << 3) + 0x84;
    t <<= (val & 0x70) >> 4;
    this.muLawTable[i] = val & 0x80 ? 0x84 - t : t - 0x84;
  \<close>
\<close>

definition muLawEntry :: "nat \<Rightarrow> int" where
  "muLawEntry i =
     (let val = js_not (int i);
          t = js_shl (js_and val 0x0F) 3 + 0x84;
          t = js_shl t (js_sar (js_and val 0x70) 4)
      in toInt16 (if js_and val 0x80 \<noteq> 0 then 0x84 - t else t - 0x84))"

text \<open>
  The table \<open>this.muLawTable\<close> after the loop \<open>for (let i = 0; i < 256; i++)\<close>. The
  constructor builds it once and nothing writes it again, so it is a constant here.
\<close>

definition initMuLawTable :: "int list" where
  "initMuLawTable = map muLawEntry [0..<256]"

text \<open>
  \<open>decodeMuLaw(muLawByte) = this.muLawTable[muLawByte] / 32768.0\<close>. The argument is an
  element of a \<open>Uint8Array\<close>, hence a byte, and the index is always inside the table.
  The quotient of an integer below \<open>2 ^ 15\<close> in magnitude by \<open>2 ^ 15\<close> is exact in
  double (and in single) precision, so the real quotient is the value computed.
\<close>

definition decodeMuLaw :: "8 word \<Rightarrow> real" where
  "decodeMuLaw muLawByte = real_of_int (initMuLawTable ! unat muLawByte) / 32768"

section \<open>The encoder (\<open>ULawProcessor.linearToUlaw\<close>, \<open>ULawProcessor.process\<close>)\<close>

text \<open>
  The loop that finds the exponent:
  \<^verbatim>\<open>
    let exponent = 7;
    for (let expMask = 0x4000; (sample & expMask) === 0 && exponent > 0; expMask >>= 1)
        exponent--;
  \<close>
  as a recursion on the exponent; the first argument is ToInt32 of \<open>sample\<close>.
\<close>

fun expLoop :: "int \<Rightarrow> int \<Rightarrow> nat \<Rightarrow> nat" where
  "expLoop isample expMask 0 = 0"
| "expLoop isample expMask (Suc e) =
     (if js_and isample expMask = 0 then expLoop isample (js_sar expMask 1) e else Suc e)"

text \<open>
  The bitwise part of \<open>linearToUlaw\<close> (the loop, the mantissa and the packing). The
  sample enters it only through \<open>sample & expMask\<close> and \<open>sample >> (exponent + 3)\<close>,
  both of which see ToInt32 of the sample: \<open>isample\<close>.
\<close>

definition ulawBits :: "int \<Rightarrow> int \<Rightarrow> int" where
  "ulawBits sign isample =
     (let exponent = int (expLoop isample 0x4000 7);
          mantissa = js_and (js_sar isample (exponent + 3)) 0x0F
      in js_and (js_not (js_or (js_or sign (js_shl exponent 4)) mantissa)) 0xFF)"

text \<open>
  \<open>linearToUlaw(sample)\<close> with \<open>BIAS = 0x84\<close> and \<open>CLIP = 32635\<close>. The sample is a
  double; it is modelled as a real, which is what the code computes wherever the
  sign test, the absolute value, the clip and the addition of the bias are exact, and
  wherever the rounding of the sum does not reach the next integer: so on every
  product of a single-precision sample with 32767, which is all that
  \<open>ULawProcessor.process\<close> passes.
\<close>

definition linearToUlaw :: "real \<Rightarrow> int" where
  "linearToUlaw sample0 =
     (let sign = (if sample0 < 0 then 0x80 else 0);
          sample = \<bar>sample0\<bar>;
          sample = (if sample > 32635 then 32635 else sample);
          sample = sample + 0x84
      in ulawBits sign (js_trunc sample))"

text \<open>
  One iteration of the loop of \<open>ULawProcessor.process\<close>:
  \<open>ulaw[i] = this.linearToUlaw(channelData[i] * 32767)\<close>, the store being into a
  \<open>Uint8Array\<close>.
\<close>

definition encodeSample :: "real \<Rightarrow> 8 word" where
  "encodeSample x = word_of_int (linearToUlaw (x * 32767))"

text \<open>
  \<open>ULawProcessor.process\<close> on \<open>inputs[0][0]\<close>: the bytes it posts, or nothing when
  the input has no channel.
\<close>

definition encoderProcess :: "real list option \<Rightarrow> 8 word list option" where
  "encoderProcess input0 =
     (case input0 of
        None \<Rightarrow> None
      | Some channelData \<Rightarrow> Some (map encodeSample channelData))"

section \<open>The reference table\<close>

text \<open>
  The decoding rule of the telephony \<open>\<mu>\<close>-law codec (ITU-T G.711). The code is
  transmitted complemented; of the complemented code \<open>v\<close> the top bit is the sign, the
  next three bits the segment \<open>e\<close> and the low four bits the step \<open>q\<close>. The decoder
  output on the standard's 14-bit scale has the magnitude \<open>(2 q + 33) * 2 ^ e - 33\<close>
  (from 0 up to 8031); 16-bit linear samples are four times that. The repository holds
  neither the rule nor a table; it is what the specification compares the decoder's
  table with.
\<close>

definition g711_expand :: "nat \<Rightarrow> int" where
  "g711_expand code =
     (let v = 255 - code;
          e = (v div 16) mod 8;
          q = v mod 16;
          magnitude = 4 * ((2 * int q + 33) * 2 ^ e - 33)
      in if v div 128 = 1 then - magnitude else magnitude)"

text \<open>
  The reference decoding table, written out entry by entry as it is published: index
  \<open>0x00\<close> first, \<open>0xFF\<close> last.
\<close>

definition g711_ulaw_reference :: "int list" where
  "g711_ulaw_reference = [
     -32124, -31100, -30076, -29052, -28028, -27004, -25980, -24956,
     -23932, -22908, -21884, -20860, -19836, -18812, -17788, -16764,
     -15996, -15484, -14972, -14460, -13948, -13436, -12924, -12412,
     -11900, -11388, -10876, -10364, -9852, -9340, -8828, -8316,
     -7932, -7676, -7420, -7164, -6908, -6652, -6396, -6140,
     -5884, -5628, -5372, -5116, -4860, -4604, -4348, -4092,
     -3900, -3772, -3644, -3516, -3388, -3260, -3132, -3004,
     -2876, -2748, -2620, -2492, -2364, -2236, -2108, -1980,
     -1884, -1820, -1756, -1692, -1628, -1564, -1500, -1436,
     -1372, -1308, -1244, -1180, -1116, -1052, -988, -924,
     -876, -844, -812, -780, -748, -716, -684, -652,
     -620, -588, -556, -524, -492, -460, -428, -396,
     -372, -356, -340, -324, -308, -292, -276, -260,
     -244, -228, -212, -196, -180, -164, -148, -132,
     -120, -112, -104, -96, -88, -80, -72, -64,
     -56, -48, -40, -32, -24, -16, -8, 0,
     32124, 31100, 30076, 29052, 28028, 27004, 25980, 24956,
     23932, 22908, 21884, 20860, 19836, 18812, 17788, 16764,
     15996, 15484, 14972, 14460, 13948, 13436, 12924, 12412,
     11900, 11388, 10876, 10364, 9852, 9340, 8828, 8316,
     7932, 7676, 7420, 7164, 6908, 6652, 6396, 6140,
     5884, 5628, 5372, 5116, 4860, 4604, 4348, 4092,
     3900, 3772, 3644, 3516, 3388, 3260, 3132, 3004,
     2876, 2748, 2620, 2492, 2364, 2236, 2108, 1980,
     1884, 1820, 1756, 1692, 1628, 1564, 1500, 1436,
     1372, 1308, 1244, 1180, 1116, 1052, 988, 924,
     876, 844, 812, 780, 748, 716, 684, 652,
     620, 588, 556, 524, 492, 460, 428, 396,
     372, 356, 340, 324, 308, 292, 276, 260,
     244, 228, 212, 196, 180, 164, 148, 132,
     120, 112, 104, 96, 88, 80, 72, 64,
     56, 48, 40, 32, 24, 16, 8, 0]"

section \<open>The decoder worklet (\<open>ULawDecoderProcessor\<close>)\<close>

text \<open>One element of \<open>bufferQueue\<close>: \<open>{data, markName, sequenceNumber}\<close>.\<close>

record frame =
  data :: "8 word list"
  markName :: "string option"
  sequenceNumber :: int

text \<open>
  The fields of the processor. \<open>procSequenceNumber\<close> is \<open>this.sequenceNumber\<close> (the
  name \<open>sequenceNumber\<close> is the frame's field here).
\<close>

record processor =
  bufferQueue :: "frame list"
  currentBuffer :: "8 word list option"
  bufferPosition :: nat
  currentMark :: "string option"
  isActive :: bool
  procSequenceNumber :: int

text \<open>The state the constructor leaves.\<close>

definition newProcessor :: processor where
  "newProcessor =
     \<lparr>bufferQueue = [], currentBuffer = None, bufferPosition = 0, currentMark = None,
      isActive = False, procSequenceNumber = 0\<rparr>"

text \<open>
  The messages on the processor's port. Inbound: \<open>event.data\<close> with its \<open>type\<close>
  (\<open>OtherMsg\<close> is any other type). \<open>markName\<close> is absent, null or a string;
  \<open>sequenceNumber\<close> is a number.
\<close>

datatype worklet_msg =
    Decode "8 word list" "string option" int
  | ClearMsg
  | OtherMsg

datatype port_msg =
    BufferQueued nat nat
  | BufferProcessed "string option"
  | Cleared

text \<open>\<open>x || null\<close> on an optional string: the empty string is falsy.\<close>

definition orNull :: "string option \<Rightarrow> string option" where
  "orNull x = (case x of None \<Rightarrow> None | Some n \<Rightarrow> if n = [] then None else Some n)"

text \<open>
  \<open>handleMessage(event)\<close>. \<open>event.data.sequenceNumber || this.sequenceNumber++\<close>
  takes the processor's own counter (and advances it) when the number sent is 0; the
  counter is a double in the code and an integer here, which is the same below
  \<open>2 ^ 53\<close>. \<open>Array.prototype.sort\<close> is stable, as \<^const>\<open>sort_key\<close> is.
\<close>

definition handleMessage :: "worklet_msg \<Rightarrow> processor \<Rightarrow> processor \<times> port_msg list" where
  "handleMessage ev s =
     (case ev of
        Decode ulawData mark sn \<Rightarrow>
          (let s1 = (if sn \<noteq> 0 then s else s\<lparr>procSequenceNumber := procSequenceNumber s + 1\<rparr>);
               item = \<lparr>data = ulawData, markName = orNull mark,
                       sequenceNumber = (if sn \<noteq> 0 then sn else procSequenceNumber s)\<rparr>;
               queue = sort_key sequenceNumber (bufferQueue s1 @ [item])
           in (s1\<lparr>bufferQueue := queue\<rparr>, [BufferQueued (length ulawData) (length queue)]))
      | ClearMsg \<Rightarrow>
          (s\<lparr>bufferQueue := [], currentBuffer := None, currentMark := None, bufferPosition := 0\<rparr>,
           [Cleared])
      | OtherMsg \<Rightarrow> (s, []))"

text \<open>\<open>loadNextBuffer()\<close>: the result and the new state.\<close>

definition loadNextBuffer :: "processor \<Rightarrow> bool \<times> processor" where
  "loadNextBuffer s =
     (case bufferQueue s of
        [] \<Rightarrow> (False, s)
      | nextBuffer # rest \<Rightarrow>
          (True, s\<lparr>bufferQueue := rest, currentBuffer := Some (data nextBuffer),
                   currentMark := markName nextBuffer, bufferPosition := 0, isActive := True\<rparr>))"

text \<open>
  The decoding loop of \<open>process\<close> over the output channel:
  \<^verbatim>\<open>
    for (let i = 0; i < channel.length; i++) {
        if (this.bufferPosition < this.currentBuffer.length) {
            channel[i] = this.decodeMuLaw(this.currentBuffer[this.bufferPosition++]);
        } else {
            channel[i] = 0;
            break;
        }
    }
  \<close>
  It returns the new position and the channel; after the \<open>break\<close> the rest of the
  channel is as it was.
\<close>

fun decodeLoop :: "8 word list \<Rightarrow> nat \<Rightarrow> real list \<Rightarrow> nat \<times> real list" where
  "decodeLoop buf pos [] = (pos, [])"
| "decodeLoop buf pos (c # channel) =
     (if pos < length buf
      then (case decodeLoop buf (pos + 1) channel of
              (pos', out) \<Rightarrow> (pos', decodeMuLaw (buf ! pos) # out))
      else (pos, 0 # channel))"

text \<open>
  The loop on the processor's current buffer. \<open>process\<close> reaches it only with a
  current buffer (it has just found one or loaded one).
\<close>

definition renderCurrent :: "real list \<Rightarrow> processor \<Rightarrow> processor \<times> real list" where
  "renderCurrent channel s =
     (case currentBuffer s of
        None \<Rightarrow> (s, channel)
      | Some buf \<Rightarrow>
          (case decodeLoop buf (bufferPosition s) channel of
             (pos, out) \<Rightarrow> (s\<lparr>bufferPosition := pos\<rparr>, out)))"

text \<open>
  \<open>process(inputs, outputs)\<close> on the channel \<open>outputs[0][0]\<close>: the new state, the
  channel after the call and the messages posted. (The call always returns \<open>true\<close>.)
\<close>

definition process :: "real list \<Rightarrow> processor \<Rightarrow> processor \<times> real list \<times> port_msg list" where
  "process channel s =
     (if (case currentBuffer s of None \<Rightarrow> True | Some buf \<Rightarrow> length buf \<le> bufferPosition s)
      then
        (let posted = (case currentBuffer s of
                         None \<Rightarrow> []
                       | Some buf \<Rightarrow> [BufferProcessed (currentMark s)]);
             s1 = (case currentBuffer s of
                     None \<Rightarrow> s
                   | Some buf \<Rightarrow> s\<lparr>currentBuffer := None, currentMark := None\<rparr>)
         in case loadNextBuffer s1 of
              (False, s2) \<Rightarrow> (s2\<lparr>isActive := False\<rparr>, replicate (length channel) 0, posted)
            | (True, s2) \<Rightarrow>
                (case renderCurrent channel s2 of (s3, out) \<Rightarrow> (s3, out, posted)))
      else (case renderCurrent channel s of (s3, out) \<Rightarrow> (s3, out, [])))"

text \<open>
  The audio system calls \<open>process\<close> once per render quantum, each time with a
  zero-filled channel of the quantum's length \<open>n\<close>. \<open>renders n k s\<close> is \<open>k\<close> such
  calls in a row: what each call put out and posted, and the state after the last.
\<close>

fun renders :: "nat \<Rightarrow> nat \<Rightarrow> processor \<Rightarrow> (real list \<times> port_msg list) list \<times> processor" where
  "renders n 0 s = ([], s)"
| "renders n (Suc k) s =
     (case process (replicate n 0) s of
        (s1, out, posted) \<Rightarrow>
          (case renders n k s1 of (calls, s2) \<Rightarrow> ((out, posted) # calls, s2)))"

text \<open>The messages of a list, handled one after the other.\<close>

fun handleMessages :: "worklet_msg list \<Rightarrow> processor \<Rightarrow> processor \<times> port_msg list" where
  "handleMessages [] s = (s, [])"
| "handleMessages (ev # evs) s =
     (case handleMessage ev s of
        (s1, posted) \<Rightarrow>
          (case handleMessages evs s1 of (s2, posted') \<Rightarrow> (s2, posted @ posted')))"

section \<open>The session on the main thread (\<open>MediaPhone.tsx\<close>)\<close>

text \<open>
  The component keeps its state in reference cells; the record has one field per cell
  the functions below read or write. A cell holding an object is modelled by what the
  code reads of it: the socket by its \<open>readyState\<close>, the audio context, the decoder
  node and the current source by their presence. \<open>audioBufferQueueRef\<close> holds the
  marker names of the queued items, \<open>pendingMarksRef\<close> the elements of the set in
  insertion order.
\<close>

datatype readyState = CONNECTING | OPEN | CLOSING | CLOSED

record phone =
  isDisconnecting :: bool
  wsRef :: "readyState option"
  audioContextRef :: bool
  streamSidRef :: "string option"
  callSidRef :: "string option"
  sequenceNumberRef :: int
  timestampRef :: int
  nextStartTimeRef :: real
  audioBufferQueueRef :: "string list"
  pendingMarksRef :: "string list"
  currentSourceRef :: bool
  pendingMarkFromServerRef :: "string option"
  ulawDecoderNodeRef :: bool
  isPlaying :: bool

text \<open>
  The envelopes the modelled functions send: \<open>stop\<close> with \<open>sequenceNumber\<close>,
  \<open>stop.callSid\<close> and \<open>streamSid\<close>; \<open>mark\<close> with \<open>streamSid\<close>, \<open>sequenceNumber\<close>
  (the text of \<open>Date.now()\<close>) and \<open>mark.name\<close>.
\<close>

datatype envelope =
    StopEnvelope int "string option" "string option"
  | MarkEnvelope "string option" string string

datatype logType = Info | Error | Success

datatype timer = CloseAfterStop

text \<open>
  What a function does to the world outside the cells, in the order it does it:
  \<open>console.log\<close>, \<open>addLog\<close>, \<open>send\<close> and \<open>close\<close> on the socket, \<open>setTimeout\<close> with
  its delay in milliseconds, \<open>postMessage\<close> to the decoder worklet, \<open>stop\<close> on the
  current source, \<open>close\<close> on the audio context.
\<close>

datatype effect =
    ConsoleLog string
  | AddLog string logType
  | WsSend envelope
  | WsClose int string
  | SetTimeout nat timer
  | PostToDecoder worklet_msg
  | SourceStop
  | AudioContextClose

text \<open>The decimal text of a number, for the log lines that interpolate one.\<close>

fun decimal :: "nat \<Rightarrow> string" where
  "decimal n =
     (if n < 10 then [''0123456789'' ! n]
      else decimal (n div 10) @ [''0123456789'' ! (n mod 10)])"

text \<open>\<open>_sendMessageToClient(event, data)\<close>.\<close>

definition sendMessageToClient :: "envelope \<Rightarrow> phone \<Rightarrow> effect list" where
  "sendMessageToClient message s =
     (if wsRef s \<noteq> Some OPEN
      then [AddLog ''WebSocket is not connected. Cannot send message.'' Error]
      else [WsSend message])"

text \<open>
  \<open>clearAudioBuffer()\<close>. \<open>now\<close> is the text of \<open>Date.now()\<close>, \<open>currentTime\<close> the audio
  context's clock.
\<close>

definition clearAudioBuffer :: "string \<Rightarrow> real \<Rightarrow> phone \<Rightarrow> phone \<times> effect list" where
  "clearAudioBuffer now currentTime s =
     (s\<lparr>currentSourceRef := False, audioBufferQueueRef := [], pendingMarksRef := [],
        nextStartTimeRef := (if audioContextRef s then currentTime else 0),
        isPlaying := False\<rparr>,
      (if currentSourceRef s then [SourceStop] else []) @
      (if ulawDecoderNodeRef s
       then [PostToDecoder ClearMsg, AddLog ''Sent clear message to audio worklet'' Info]
       else []) @
      concat (map (\<lambda>name. sendMessageToClient (MarkEnvelope (streamSidRef s) now name) s)
                  (pendingMarksRef s)))"

text \<open>
  An inbound envelope after \<open>JSON.parse\<close>: \<open>media\<close> with \<open>sequenceNumber\<close>,
  \<open>media.chunk\<close> and \<open>media.payload\<close>; \<open>mark\<close> with \<open>mark?.name\<close>; \<open>clear\<close>; any
  other \<open>event\<close>; and a text that does not parse, with the parser's message.
\<close>

datatype inbound =
    InMedia int int string
  | InMark "string option"
  | InClear
  | InOther string
  | Unparsable string

text \<open>
  \<open>processMediaMessage(message)\<close>. \<open>base64ToUint8Array\<close> rests on the browser's
  \<open>atob\<close>, which is a parameter here: it gives the bytes, or throws with a message.
\<close>

definition processMediaMessage ::
    "(string \<Rightarrow> string + 8 word list) \<Rightarrow> int \<Rightarrow> int \<Rightarrow> string \<Rightarrow> phone \<Rightarrow> phone \<times> effect list" where
  "processMediaMessage base64ToUint8Array sn chunk payload s =
     (case base64ToUint8Array payload of
        Inl msg \<Rightarrow> (s, [AddLog (''Error processing media message: '' @ msg) Error])
      | Inr muLawData \<Rightarrow>
          if ulawDecoderNodeRef s
          then (s\<lparr>pendingMarkFromServerRef := None\<rparr>,
                [PostToDecoder (Decode muLawData (pendingMarkFromServerRef s)
                                  (if sn \<noteq> 0 then sn else chunk)),
                 AddLog (''Queued '' @ decimal (length muLawData) @ '' bytes in decoder worklet'')
                   Info])
          else (s, []))"

text \<open>The \<open>event\<close> field of an inbound envelope, for the log line.\<close>

fun eventName :: "inbound \<Rightarrow> string" where
  "eventName (InMedia sn chunk payload) = ''media''"
| "eventName (InMark name) = ''mark''"
| "eventName InClear = ''clear''"
| "eventName (InOther ev) = ev"
| "eventName (Unparsable msg) = []"

text \<open>\<open>_handleWebSocketMessage(event)\<close>.\<close>

definition handleWebSocketMessage ::
    "(string \<Rightarrow> string + 8 word list) \<Rightarrow> string \<Rightarrow> real \<Rightarrow> inbound \<Rightarrow> phone \<Rightarrow> phone \<times> effect list" where
  "handleWebSocketMessage base64ToUint8Array now currentTime message s =
     (case message of
        Unparsable msg \<Rightarrow> (s, [AddLog (''Unknown message type: '' @ msg) Error])
      | InMedia sn chunk payload \<Rightarrow>
          (case processMediaMessage base64ToUint8Array sn chunk payload s of
             (s1, effs) \<Rightarrow> (s1, AddLog (''Received '' @ eventName message) Info # effs))
      | InMark name \<Rightarrow>
          (case orNull name of
             None \<Rightarrow> (s, [AddLog (''Received '' @ eventName message) Info])
           | Some n \<Rightarrow>
               (s\<lparr>pendingMarkFromServerRef := Some n\<rparr>,
                [AddLog (''Received '' @ eventName message) Info,
                 AddLog (''Mark received: '' @ n) Info]))
      | InClear \<Rightarrow>
          (case clearAudioBuffer now currentTime s of
             (s1, effs) \<Rightarrow>
               (s1, [AddLog (''Received '' @ eventName message) Info,
                     AddLog ''Clear received - stopping audio playback'' Info] @ effs))
      | InOther ev \<Rightarrow> (s, [AddLog (''Received '' @ eventName message) Info]))"

text \<open>
  \<open>decoderWorkletNode.port.onmessage\<close>: what the main thread does with a message of
  the decoder worklet. It changes no cell.
\<close>

definition decoderOnMessage :: "string \<Rightarrow> port_msg \<Rightarrow> phone \<Rightarrow> effect list" where
  "decoderOnMessage now msg s =
     (case msg of
        BufferProcessed mark \<Rightarrow>
          (case orNull mark of
             None \<Rightarrow> []
           | Some name \<Rightarrow>
               sendMessageToClient (MarkEnvelope (streamSidRef s) now name) s @
               [AddLog (''Mark processed: '' @ name) Success])
      | BufferQueued bufferLength queueLength \<Rightarrow>
          (if 5 < queueLength
           then [AddLog (''Audio queue length: '' @ decimal queueLength) Info]
           else [])
      | Cleared \<Rightarrow> [AddLog ''Audio worklet buffers cleared'' Info])"

text \<open>\<open>_closeMediaServerConnection(statusCode, statusMessage)\<close>.\<close>

definition closeMediaServerConnection :: "int \<Rightarrow> string \<Rightarrow> phone \<Rightarrow> phone \<times> effect list" where
  "closeMediaServerConnection statusCode statusMessage s =
     (if wsRef s = None then (s, [])
      else (s\<lparr>wsRef := None\<rparr>,
            [WsClose statusCode statusMessage, AddLog ''WebSocket connection closed'' Success]))"

text \<open>
  \<open>_disconnectFromCall()\<close>. The callback handed to \<open>setTimeout\<close> is
  \<open>closeAfterStop\<close> below; it runs 100 ms later at the earliest, after this call has
  returned.
\<close>

definition disconnectFromCall :: "phone \<Rightarrow> phone \<times> effect list" where
  "disconnectFromCall s =
     (if isDisconnecting s then (s, [ConsoleLog ''Disconnecting from call''])
      else
        (let (s2, effs2) =
               (if wsRef s \<noteq> None
                then
                  (let (s1, effs1) =
                         (if wsRef s = Some OPEN
                          then (s\<lparr>sequenceNumberRef := sequenceNumberRef s + 1\<rparr>,
                                sendMessageToClient
                                  (StopEnvelope (sequenceNumberRef s) (callSidRef s)
                                     (streamSidRef s)) s @
                                [AddLog ''Sent stop message to media server'' Info,
                                 SetTimeout 100 CloseAfterStop,
                                 AddLog ''WebSocket connection closed'' Info])
                          else (s, []))
                   in if wsRef s1 \<noteq> None
                      then (case closeMediaServerConnection 1000 ''User disconnected'' s1 of
                              (s', effs') \<Rightarrow> (s', effs1 @ effs'))
                      else (s1, effs1))
                else (s, []));
             s3 = s2\<lparr>ulawDecoderNodeRef := False\<rparr>;
             (s4, effs4) =
               (if audioContextRef s3
                then (s3\<lparr>audioContextRef := False\<rparr>,
                      [AudioContextClose, AddLog ''Audio context closed'' Info])
                else (s3, []))
         in (s4\<lparr>isDisconnecting := True\<rparr>,
             ConsoleLog ''Disconnecting from call'' # effs2 @ effs4)))"

text \<open>The callback of the timer that \<open>_disconnectFromCall\<close> sets.\<close>

definition closeAfterStop :: "phone \<Rightarrow> phone \<times> effect list" where
  "closeAfterStop s =
     (if wsRef s \<noteq> None then closeMediaServerConnection 1000 ''User disconnected'' s
      else (s, []))"

section \<open>Runs, observations and expected outputs\<close>

text \<open>
  The definitions of this section are not functions of the source: they compose the
  functions above into runs, read effects off a run, and say what a run is expected to
  put out.
\<close>

text \<open>
  Events at the processor in any order: a message on its port, or a render call.
\<close>

datatype event = Message worklet_msg | Render "real list"

fun run :: "event list \<Rightarrow> processor \<Rightarrow> processor" where
  "run [] s = s"
| "run (Message ev # evs) s = run evs (fst (handleMessage ev s))"
| "run (Render channel # evs) s = run evs (fst (process channel s))"

text \<open>
  Inbound envelopes handled one after the other, with the effects in order.
\<close>

fun handleWebSocketMessages ::
    "(string \<Rightarrow> string + 8 word list) \<Rightarrow> string \<Rightarrow> real \<Rightarrow> inbound list \<Rightarrow> phone \<Rightarrow> phone \<times> effect list" where
  "handleWebSocketMessages base64ToUint8Array now currentTime [] s = (s, [])"
| "handleWebSocketMessages base64ToUint8Array now currentTime (message # messages) s =
     (case handleWebSocketMessage base64ToUint8Array now currentTime message s of
        (s1, effs) \<Rightarrow>
          (case handleWebSocketMessages base64ToUint8Array now currentTime messages s1 of
             (s2, effs') \<Rightarrow> (s2, effs @ effs')))"

text \<open>
  The envelopes sent, the closes of the socket, the messages posted to the decoder
  worklet, and the names of the mark envelopes, read off a list of effects.
\<close>

definition sends :: "effect list \<Rightarrow> envelope list" where
  "sends effs = concat (map (\<lambda>e. case e of WsSend m \<Rightarrow> [m] | _ \<Rightarrow> []) effs)"

definition closes :: "effect list \<Rightarrow> (int \<times> string) list" where
  "closes effs = concat (map (\<lambda>e. case e of WsClose c r \<Rightarrow> [(c, r)] | _ \<Rightarrow> []) effs)"

definition postsToDecoder :: "effect list \<Rightarrow> worklet_msg list" where
  "postsToDecoder effs = concat (map (\<lambda>e. case e of PostToDecoder m \<Rightarrow> [m] | _ \<Rightarrow> []) effs)"

definition markNames :: "envelope list \<Rightarrow> string list" where
  "markNames envs =
     concat (map (\<lambda>m. case m of MarkEnvelope sid t name \<Rightarrow> [name] | _ \<Rightarrow> []) envs)"


definition reportedMarks :: "string \<Rightarrow> phone \<Rightarrow> port_msg list \<Rightarrow> string list" where
  "reportedMarks now ph msgs =
     markNames (sends (concat (map (\<lambda>msg. decoderOnMessage now msg ph) msgs)))"

text \<open>
  What the encoder makes of a table entry \<open>t\<close>: the decoder returns \<open>t / 32768\<close>, the
  encoder scales by 32767. For \<open>\<bar>t\<bar> < 2 ^ 15\<close> the product \<open>t * 32767 / 2 ^ 15\<close> and
  the sum with the bias have fewer than 53 significant bits, so the doubles of the
  code are these reals. \<open>reencoded i\<close> is the byte expected at index \<open>i\<close>.
\<close>

definition reencode :: "int \<Rightarrow> int" where
  "reencode t = linearToUlaw (real_of_int t / 32768 * 32767)"

definition reencoded :: "nat \<Rightarrow> int" where
  "reencoded i = (if i = 127 then 255 else int i)"

text \<open>
  A list of samples cut into render quanta of \<open>n\<close> samples, the last one filled up
  with zeros; an empty list is one quantum of zeros. \<open>quanta n buf\<close> are the quanta
  that the decoded bytes of \<open>buf\<close> fill, \<open>silence n\<close> is a quantum of zeros.
\<close>

function blocks :: "nat \<Rightarrow> real list \<Rightarrow> real list list" where
  "blocks n xs =
     (if n = 0 \<or> length xs \<le> n then [xs @ replicate (n - length xs) 0]
      else take n xs # blocks n (drop n xs))"
  by pat_completeness auto
termination
  by (relation "measure (\<lambda>(n, xs). length xs)") auto

declare blocks.simps [simp del]

definition quanta :: "nat \<Rightarrow> 8 word list \<Rightarrow> real list list" where
  "quanta n buf = blocks n (map decodeMuLaw buf)"

definition silence :: "nat \<Rightarrow> real list" where
  "silence n = replicate n 0"

text \<open>
  A processor whose next render call leaves the decoding to a new buffer: it has no
  current buffer, or has reached the end of it. \<open>retiring s\<close> is what that call posts
  for the old buffer, \<open>retired s\<close> the state once the old buffer is dropped.
\<close>

definition exhausted :: "processor \<Rightarrow> bool" where
  "exhausted s = (case currentBuffer s of None \<Rightarrow> True | Some buf \<Rightarrow> length buf \<le> bufferPosition s)"

definition retiring :: "processor \<Rightarrow> port_msg list" where
  "retiring s = (case currentBuffer s of None \<Rightarrow> [] | Some buf \<Rightarrow> [BufferProcessed (currentMark s)])"

definition retired :: "processor \<Rightarrow> processor" where
  "retired s =
     (case currentBuffer s of
        None \<Rightarrow> s
      | Some buf \<Rightarrow> s\<lparr>currentBuffer := None, currentMark := None\<rparr>)"

text \<open>
  The expected render calls, each with its output and the messages it posts:
  \<open>frameCalls\<close> for one buffer (the first call also posts \<open>posted\<close>, the retirement
  of the buffer before), \<open>queueCalls\<close> for the buffers of a queue in order,
  \<open>allCalls\<close> for the queue and the call after it, which retires the last buffer and
  puts out silence. \<open>numCalls n q\<close> is the number of calls that render every sample of
  the frames of \<open>q\<close>.
\<close>

definition silentCalls :: "real list list \<Rightarrow> (real list \<times> port_msg list) list" where
  "silentCalls bs = map (\<lambda>b. (b, [])) bs"

definition frameCalls :: "nat \<Rightarrow> port_msg list \<Rightarrow> 8 word list \<Rightarrow> (real list \<times> port_msg list) list" where
  "frameCalls n posted buf = (hd (quanta n buf), posted) # silentCalls (tl (quanta n buf))"

fun queueCalls :: "nat \<Rightarrow> port_msg list \<Rightarrow> frame list \<Rightarrow> (real list \<times> port_msg list) list" where
  "queueCalls n posted [] = []"
| "queueCalls n posted (f # q) =
     frameCalls n posted (data f) @ queueCalls n [BufferProcessed (markName f)] q"

definition numCalls :: "nat \<Rightarrow> frame list \<Rightarrow> nat" where
  "numCalls n q = sum_list (map (\<lambda>f. length (quanta n (data f))) q)"

definition lastPosted :: "port_msg list \<Rightarrow> frame list \<Rightarrow> port_msg list" where
  "lastPosted posted q = (if q = [] then posted else [BufferProcessed (markName (last q))])"

definition allCalls :: "nat \<Rightarrow> port_msg list \<Rightarrow> frame list \<Rightarrow> (real list \<times> port_msg list) list" where
  "allCalls n posted q = queueCalls n posted q @ [(silence n, lastPosted posted q)]"

text \<open>
  Concrete inputs: the processor after frames numbered 5, 3 and 4 have arrived in that
  order; a session with an open socket; a base64 decoder that yields one zero byte (as
  \<open>atob\<close> does on \<open>AA==\<close>); two marked frames followed by \<open>clear\<close>; and the
  processor after the three messages that the session posts to it in that case.
\<close>

definition enqueued534 ::
    "8 word list \<Rightarrow> string option \<Rightarrow> 8 word list \<Rightarrow> string option \<Rightarrow> 8 word list \<Rightarrow> string option \<Rightarrow> processor" where
  "enqueued534 d5 m5 d3 m3 d4 m4 =
     fst (handleMessages [Decode d5 m5 5, Decode d3 m3 3, Decode d4 m4 4] newProcessor)"

definition openPhone :: phone where
  "openPhone =
     \<lparr>isDisconnecting = False, wsRef = Some OPEN, audioContextRef = True,
      streamSidRef = Some ''MZ1'', callSidRef = Some ''CA1'', sequenceNumberRef = 7,
      timestampRef = 0, nextStartTimeRef = 0, audioBufferQueueRef = [], pendingMarksRef = [],
      currentSourceRef = False, pendingMarkFromServerRef = None, ulawDecoderNodeRef = True,
      isPlaying = False\<rparr>"

definition atob0 :: "string \<Rightarrow> string + 8 word list" where
  "atob0 payload = Inr [0]"

definition clearScenario :: "inbound list" where
  "clearScenario =
     [InMark (Some ''m1''), InMedia 1 1 ''AA=='', InMark (Some ''m2''), InMedia 2 2 ''AA=='',
      InClear]"

definition clearedProcessor :: processor where
  "clearedProcessor =
     fst (handleMessages [Decode [0] (Some ''m1'') 1, Decode [0] (Some ''m2'') 2, ClearMsg]
            newProcessor)"





text \<open>
  The decoded samples of a frame, and what it is for blocks of samples to have been
  played in order: each block stands in the output as one piece, after the block
  before it.
\<close>

definition samples :: "frame \<Rightarrow> real list" where
  "samples f = map decodeMuLaw (data f)"

fun playedInOrder :: "real list list \<Rightarrow> real list \<Rightarrow> bool" where
  "playedInOrder [] out = True"
| "playedInOrder (b # bs) out =
     (\<exists>k \<in> {0..length out}.
        take (length b) (drop k out) = b \<and> playedInOrder bs (drop (k + length b) out))"





text \<open>
  Where a run stands with the frames \<open>F\<close>, of which the last carries the name \<open>m\<close>:
  all of them are still pending ahead of the rest of the queue; or the frame \<open>F ! j\<close> is
  the current buffer, the frames before it have been played and so have its own
  samples up to the position; or the last of them has been retired, and its
  \<open>bufferProcessed\<close> message has been posted once.
\<close>

inductive tracking ::
    "frame list \<Rightarrow> string \<Rightarrow> int \<Rightarrow> processor \<Rightarrow> real list \<Rightarrow> port_msg list \<Rightarrow> bool"
  for F :: "frame list" and m :: string and key :: int where
  waiting:
    "bufferQueue s = F @ rest \<Longrightarrow>
     \<forall>g \<in> set rest. markName g \<noteq> Some m \<and> key \<le> sequenceNumber g \<Longrightarrow>
     currentMark s \<noteq> Some m \<Longrightarrow>
     BufferProcessed (Some m) \<notin> set posted \<Longrightarrow>
     tracking F m key s out posted"
| playing:
    "j < length F \<Longrightarrow>
     bufferQueue s = drop (Suc j) F @ rest \<Longrightarrow>
     \<forall>g \<in> set rest. markName g \<noteq> Some m \<and> (Suc j < length F \<longrightarrow> key \<le> sequenceNumber g) \<Longrightarrow>
     currentBuffer s = Some (data (F ! j)) \<Longrightarrow>
     currentMark s = markName (F ! j) \<Longrightarrow>
     bufferPosition s \<le> length (data (F ! j)) \<Longrightarrow>
     out = a @ take (bufferPosition s) (samples (F ! j)) @ z \<Longrightarrow>
     (bufferPosition s < length (data (F ! j)) \<longrightarrow> z = []) \<Longrightarrow>
     playedInOrder (map samples (take j F)) a \<Longrightarrow>
     BufferProcessed (Some m) \<notin> set posted \<Longrightarrow>
     tracking F m key s out posted"
| reported:
    "\<forall>g \<in> set (bufferQueue s). markName g \<noteq> Some m \<Longrightarrow>
     currentMark s \<noteq> Some m \<Longrightarrow>
     count_list posted (BufferProcessed (Some m)) = 1 \<Longrightarrow>
     playedInOrder (map samples F) out \<Longrightarrow>
     tracking F m key s out posted"



section \<open>Facts about the codec\<close>

lemma initMuLawTable_reference: "initMuLawTable = g711_ulaw_reference"
  unfolding g711_ulaw_reference_def by code_simp

lemma reference_by_rule: "g711_ulaw_reference = map g711_expand [0..<256]"
  unfolding g711_ulaw_reference_def by code_simp

lemma reference_extremes:
  "g711_ulaw_reference ! 0x00 = -32124" "g711_ulaw_reference ! 0x80 = 32124"
  "g711_ulaw_reference ! 0x7F = 0" "g711_ulaw_reference ! 0xFF = 0"
  unfolding g711_ulaw_reference_def by simp_all

lemma reference_antisymmetric:
  "drop 128 g711_ulaw_reference = map uminus (take 128 g711_ulaw_reference)"
  unfolding g711_ulaw_reference_def by simp

lemma length_initMuLawTable: "length initMuLawTable = 256"
  by (simp add: initMuLawTable_def)

lemma unat_byte_less: "unat (b :: 8 word) < 256"
  using unsigned_less [of b, where ?'a = nat] by simp

lemma byte_7F: "unat (b :: 8 word) = 127 \<longleftrightarrow> b = 0x7F"
proof -
  have "(b = 0x7F) = (unat b = unat (0x7F :: 8 word))"
    by (rule word_unat_eq_iff)
  then show ?thesis by simp
qed

lemma reencode_reference: "map reencode g711_ulaw_reference = map reencoded [0..<256]"
  unfolding g711_ulaw_reference_def by code_simp

lemma encode_decode: "encodeSample (decodeMuLaw b) = (if b = 0x7F then 0xFF else b)"
proof -
  have n: "unat b < 256" by (rule unat_byte_less)
  have "linearToUlaw (decodeMuLaw b * 32767) = reencode (initMuLawTable ! unat b)"
    by (simp add: decodeMuLaw_def reencode_def)
  also have "\<dots> = map reencode g711_ulaw_reference ! unat b"
    using n length_initMuLawTable by (simp add: initMuLawTable_reference [symmetric])
  also have "\<dots> = reencoded (unat b)"
    using n by (simp add: reencode_reference)
  finally have "encodeSample (decodeMuLaw b) = word_of_int (reencoded (unat b))"
    by (simp add: encodeSample_def)
  then show ?thesis
    by (simp add: reencoded_def byte_7F)
qed

lemma reference_bound: "\<forall>x \<in> set g711_ulaw_reference. \<bar>x\<bar> \<le> 32124"
  unfolding g711_ulaw_reference_def by simp

lemma table_entry_bound: "\<bar>initMuLawTable ! unat (b :: 8 word)\<bar> \<le> 32124"
proof -
  have "initMuLawTable ! unat b \<in> set initMuLawTable"
    using unat_byte_less [of b] length_initMuLawTable by simp
  then show ?thesis
    using reference_bound by (simp add: initMuLawTable_reference)
qed

section \<open>Facts about the decoder worklet\<close>

lemma decodeLoop_zeros:
  "pos \<le> length buf \<Longrightarrow>
   decodeLoop buf pos (replicate n 0) =
     (min (pos + n) (length buf),
      map decodeMuLaw (take n (drop pos buf)) @ replicate (n - (length buf - pos)) 0)"
proof (induction n arbitrary: pos)
  case 0
  then show ?case by simp
next
  case (Suc n)
  show ?case
  proof (cases "pos < length buf")
    case True
    then have d: "drop pos buf = buf ! pos # drop (Suc pos) buf"
      by (simp add: Cons_nth_drop_Suc)
    have r: "Suc n - (length buf - pos) = n - (length buf - Suc pos)"
      using True by arith
    from True have "Suc pos \<le> length buf" by simp
    from Suc.IH [OF this] True show ?thesis
      by (simp add: d r)
  next
    case False
    with Suc.prems have "pos = length buf" by simp
    then show ?thesis by simp
  qed
qed

lemma process_mid:
  assumes "currentBuffer s = Some buf" and "bufferPosition s < length buf"
  shows "process (replicate n 0) s =
     (s\<lparr>bufferPosition := min (bufferPosition s + n) (length buf)\<rparr>,
      map decodeMuLaw (take n (drop (bufferPosition s) buf)) @
        replicate (n - (length buf - bufferPosition s)) 0, [])"
  using assms by (simp add: process_def renderCurrent_def decodeLoop_zeros)

lemma process_load:
  assumes "exhausted s" and "bufferQueue s = f # q"
  shows "process (replicate n 0) s =
     (s\<lparr>bufferQueue := q, currentBuffer := Some (data f), currentMark := markName f,
        bufferPosition := min n (length (data f)), isActive := True\<rparr>,
      map decodeMuLaw (take n (data f)) @ replicate (n - length (data f)) 0, retiring s)"
  using assms
  by (cases "currentBuffer s")
     (simp_all add: process_def exhausted_def retiring_def loadNextBuffer_def renderCurrent_def
        decodeLoop_zeros)

lemma process_idle:
  assumes "exhausted s" and "bufferQueue s = []"
  shows "process channel s =
     ((retired s)\<lparr>isActive := False\<rparr>, replicate (length channel) 0, retiring s)"
  using assms
  by (cases "currentBuffer s")
     (simp_all add: process_def exhausted_def retiring_def retired_def loadNextBuffer_def)

lemma renders_add:
  "renders n (j + k) s =
     (case renders n j s of
        (c1, s1) \<Rightarrow> (case renders n k s1 of (c2, s2) \<Rightarrow> (c1 @ c2, s2)))"
  by (induction j arbitrary: s) (simp_all split: prod.splits)

lemma length_renders: "length (fst (renders n k s)) = k"
  by (induction k arbitrary: s) (simp_all add: case_prod_beta)

lemma renders_prefix: "fst (renders n k s) = take k (fst (renders n (k + j) s))"
  by (simp add: renders_add case_prod_beta length_renders)

lemma blocks_nonempty: "blocks n xs \<noteq> []"
  by (subst blocks.simps) simp

lemma quanta_nonempty: "quanta n buf \<noteq> []"
  by (simp add: quanta_def blocks_nonempty)

lemma drain_mid:
  assumes n: "0 < n"
  shows "currentBuffer s = Some buf \<Longrightarrow> bufferPosition s = p \<Longrightarrow> p < length buf \<Longrightarrow>
    renders n (length (quanta n (drop p buf))) s =
      (silentCalls (quanta n (drop p buf)), s\<lparr>bufferPosition := length buf\<rparr>)"
proof (induction "length buf - p" arbitrary: p s rule: less_induct)
  case less
  let ?xs = "map decodeMuLaw (drop p buf)"
  have step: "process (replicate n 0) s =
     (s\<lparr>bufferPosition := min (p + n) (length buf)\<rparr>,
      map decodeMuLaw (take n (drop p buf)) @ replicate (n - (length buf - p)) 0, [])"
    using process_mid [of s buf n] less.prems by simp
  show ?case
  proof (cases "length buf - p \<le> n")
    case True
    then have b: "quanta n (drop p buf) = [?xs @ replicate (n - (length buf - p)) 0]"
      by (simp add: quanta_def blocks.simps [of n ?xs])
    from True less.prems have m: "min (p + n) (length buf) = length buf" by simp
    from True have t: "take n (drop p buf) = drop p buf" by simp
    show ?thesis
      by (simp add: b step m t silentCalls_def)
  next
    case False
    then have b: "quanta n (drop p buf) =
        map decodeMuLaw (take n (drop p buf)) # quanta n (drop (p + n) buf)"
      using n by (simp add: quanta_def blocks.simps [of n ?xs] take_map drop_map add.commute)
    from False have m: "min (p + n) (length buf) = p + n" by simp
    from False have z: "n - (length buf - p) = 0" by simp
    let ?s1 = "s\<lparr>bufferPosition := p + n\<rparr>"
    have "length buf - (p + n) < length buf - p"
      using n less.prems by arith
    moreover have "currentBuffer ?s1 = Some buf" "bufferPosition ?s1 = p + n" "p + n < length buf"
      using less.prems False by simp_all
    ultimately have ih: "renders n (length (quanta n (drop (p + n) buf))) ?s1 =
        (silentCalls (quanta n (drop (p + n) buf)), ?s1\<lparr>bufferPosition := length buf\<rparr>)"
      by (rule less.hyps)
    show ?thesis
      by (simp add: b step m z ih silentCalls_def)
  qed
qed

lemma length_frameCalls: "length (frameCalls n posted buf) = length (quanta n buf)"
  using quanta_nonempty [of n buf] by (simp add: frameCalls_def silentCalls_def)

lemma drain_frame:
  assumes n: "0 < n" and ex: "exhausted s" and q: "bufferQueue s = f # q"
  shows "renders n (length (quanta n (data f))) s =
      (frameCalls n (retiring s) (data f),
       s\<lparr>bufferQueue := q, currentBuffer := Some (data f), currentMark := markName f,
          bufferPosition := length (data f), isActive := True\<rparr>)"
proof -
  let ?buf = "data f"
  let ?xs = "map decodeMuLaw ?buf"
  let ?s1 = "s\<lparr>bufferQueue := q, currentBuffer := Some ?buf, currentMark := markName f,
        bufferPosition := min n (length ?buf), isActive := True\<rparr>"
  have step: "process (replicate n 0) s =
      (?s1, map decodeMuLaw (take n ?buf) @ replicate (n - length ?buf) 0, retiring s)"
    using ex q by (rule process_load)
  show ?thesis
  proof (cases "length ?buf \<le> n")
    case True
    then have b: "quanta n ?buf = [?xs @ replicate (n - length ?buf) 0]"
      by (simp add: quanta_def blocks.simps [of n ?xs])
    from True show ?thesis
      by (simp add: b step frameCalls_def silentCalls_def min_def)
  next
    case False
    then have b: "quanta n ?buf = map decodeMuLaw (take n ?buf) # quanta n (drop n ?buf)"
      using n by (simp add: quanta_def blocks.simps [of n ?xs] take_map drop_map)
    from False have m: "min n (length ?buf) = n" and z: "n - length ?buf = 0"
      by simp_all
    have "renders n (length (quanta n (drop n ?buf))) ?s1 =
        (silentCalls (quanta n (drop n ?buf)), ?s1\<lparr>bufferPosition := length ?buf\<rparr>)"
      using False by (intro drain_mid [OF n]) (simp_all add: m)
    then show ?thesis
      by (simp add: b step frameCalls_def z m)
  qed
qed

lemma drain_queue:
  assumes n: "0 < n"
  shows "exhausted s \<Longrightarrow> bufferQueue s = q \<Longrightarrow>
    fst (renders n (numCalls n q) s) = queueCalls n (retiring s) q \<and>
    exhausted (snd (renders n (numCalls n q) s)) \<and>
    bufferQueue (snd (renders n (numCalls n q) s)) = [] \<and>
    retiring (snd (renders n (numCalls n q) s)) = lastPosted (retiring s) q"
proof (induction q arbitrary: s)
  case Nil
  then show ?case by (simp add: numCalls_def lastPosted_def)
next
  case (Cons f q)
  let ?s1 = "s\<lparr>bufferQueue := q, currentBuffer := Some (data f), currentMark := markName f,
          bufferPosition := length (data f), isActive := True\<rparr>"
  have fr: "renders n (length (quanta n (data f))) s = (frameCalls n (retiring s) (data f), ?s1)"
    using n Cons.prems by (rule drain_frame)
  have "exhausted ?s1" "bufferQueue ?s1 = q"
    by (simp_all add: exhausted_def)
  from Cons.IH [OF this] have ih:
    "fst (renders n (numCalls n q) ?s1) = queueCalls n (retiring ?s1) q"
    "exhausted (snd (renders n (numCalls n q) ?s1))"
    "bufferQueue (snd (renders n (numCalls n q) ?s1)) = []"
    "retiring (snd (renders n (numCalls n q) ?s1)) = lastPosted (retiring ?s1) q"
    by simp_all
  have r: "retiring ?s1 = [BufferProcessed (markName f)]"
    by (simp add: retiring_def)
  have c: "numCalls n (f # q) = length (quanta n (data f)) + numCalls n q"
    by (simp add: numCalls_def)
  have l: "lastPosted (retiring s) (f # q) = lastPosted [BufferProcessed (markName f)] q"
    by (simp add: lastPosted_def)
  show ?case
    unfolding c renders_add fr l
    using ih by (simp add: r case_prod_beta)
qed

lemma renders_idle:
  "currentBuffer s = None \<Longrightarrow> bufferQueue s = [] \<Longrightarrow>
   fst (renders n k s) = replicate k (silence n, [])"
proof (induction k arbitrary: s)
  case 0
  then show ?case by simp
next
  case (Suc k)
  have ex: "exhausted s" using Suc.prems by (simp add: exhausted_def)
  have p: "process (replicate n 0) s = (s\<lparr>isActive := False\<rparr>, silence n, [])"
    using process_idle [OF ex Suc.prems(2), of "replicate n 0"] Suc.prems
    by (simp add: retired_def retiring_def silence_def)
  have "fst (renders n k (s\<lparr>isActive := False\<rparr>)) = replicate k (silence n, [])"
    using Suc.prems by (intro Suc.IH) simp_all
  then show ?case
    by (simp add: p case_prod_beta)
qed

lemma renders_all:
  assumes n: "0 < n" and ex: "exhausted s"
  shows "fst (renders n (numCalls n (bufferQueue s) + 1 + e) s) =
     allCalls n (retiring s) (bufferQueue s) @ replicate e (silence n, [])"
proof -
  let ?q = "bufferQueue s"
  let ?s1 = "snd (renders n (numCalls n ?q) s)"
  from drain_queue [OF n ex refl] have dq:
    "fst (renders n (numCalls n ?q) s) = queueCalls n (retiring s) ?q"
    "exhausted ?s1" "bufferQueue ?s1 = []" "retiring ?s1 = lastPosted (retiring s) ?q"
    by simp_all
  let ?s2 = "(retired ?s1)\<lparr>isActive := False\<rparr>"
  have p: "process (replicate n 0) ?s1 = (?s2, silence n, lastPosted (retiring s) ?q)"
    using process_idle [OF dq(2) dq(3), of "replicate n 0"] dq(4) by (simp add: silence_def)
  have "currentBuffer ?s2 = None" "bufferQueue ?s2 = []"
    using dq(3) by (simp_all add: retired_def split: option.splits)
  then have idle: "fst (renders n e ?s2) = replicate e (silence n, [])"
    by (rule renders_idle)
  have one: "fst (renders n (1 + e) ?s1) = (silence n, lastPosted (retiring s) ?q) # replicate e (silence n, [])"
    using idle by (simp add: p case_prod_beta)
  have "numCalls n ?q + 1 + e = numCalls n ?q + (1 + e)" by simp
  then have "fst (renders n (numCalls n ?q + 1 + e) s) =
      fst (renders n (numCalls n ?q) s) @ fst (renders n (1 + e) ?s1)"
    by (simp only: renders_add) (simp add: case_prod_beta)
  then show ?thesis
    using dq(1) one by (simp add: allCalls_def)
qed

lemma length_queueCalls: "length (queueCalls n posted q) = numCalls n q"
  by (induction q arbitrary: posted) (simp_all add: numCalls_def length_frameCalls)

lemma renders_trace:
  assumes n: "0 < n" and ex: "exhausted s"
  shows "fst (renders n k s) =
     take k (allCalls n (retiring s) (bufferQueue s) @ replicate k (silence n, []))"
proof -
  have "fst (renders n k s) = take k (fst (renders n (k + (numCalls n (bufferQueue s) + 1)) s))"
    by (rule renders_prefix)
  also have "k + (numCalls n (bufferQueue s) + 1) = numCalls n (bufferQueue s) + 1 + k"
    by simp
  finally show ?thesis
    by (simp only: renders_all [OF n ex])
qed

lemma map_fst_silentCalls: "map fst (silentCalls bs) = bs"
  by (simp add: silentCalls_def comp_def)


lemma map_fst_frameCalls: "map fst (frameCalls n posted buf) = quanta n buf"
  using quanta_nonempty [of n buf] by (simp add: frameCalls_def map_fst_silentCalls)


lemma map_fst_queueCalls:
  "map fst (queueCalls n posted q) = concat (map (\<lambda>f. quanta n (data f)) q)"
  by (induction q arbitrary: posted) (simp_all add: map_fst_frameCalls)

lemma lastPosted_Cons: "lastPosted posted (f # q) = lastPosted [BufferProcessed (markName f)] q"
  by (simp add: lastPosted_def)





lemma queueCalls_append:
  "queueCalls n posted (a @ b) = queueCalls n posted a @ queueCalls n (lastPosted posted a) b"
proof (induction a arbitrary: posted)
  case Nil
  then show ?case by (simp add: lastPosted_def)
next
  case (Cons f a)
  then show ?case by (simp add: lastPosted_Cons)
qed

lemma lastPosted_append: "lastPosted posted (a @ b) = lastPosted (lastPosted posted a) b"
  by (simp add: lastPosted_def)

lemma allCalls_append:
  "allCalls n posted (a @ b) = queueCalls n posted a @ allCalls n (lastPosted posted a) b"
  by (simp add: allCalls_def queueCalls_append lastPosted_append)


lemma rendered_prefix:
  assumes n: "0 < n" and cur: "currentBuffer s = None" and q: "bufferQueue s = a @ b"
  shows "map fst (fst (renders n (numCalls n a) s)) = concat (map (\<lambda>g. quanta n (data g)) a)"
proof -
  have ex: "exhausted s" and ret: "retiring s = []"
    using cur by (simp_all add: exhausted_def retiring_def)
  have "fst (renders n (numCalls n a) s) =
      take (numCalls n a) (queueCalls n [] a @ allCalls n (lastPosted [] a) b @
        replicate (numCalls n a) (silence n, []))"
    using renders_trace [OF n ex, of "numCalls n a"] by (simp add: ret q allCalls_append)
  then have "fst (renders n (numCalls n a) s) = queueCalls n [] a"
    by (simp add: length_queueCalls)
  then show ?thesis by (simp add: map_fst_queueCalls)
qed

lemma bufferQueue_process:
  "bufferQueue (fst (process channel s)) =
     (if exhausted s then tl (bufferQueue s) else bufferQueue s)"
  by (cases "currentBuffer s"; cases "bufferQueue s")
     (simp_all add: process_def exhausted_def loadNextBuffer_def renderCurrent_def case_prod_beta)

lemma sorted_handleMessage:
  "sorted (map sequenceNumber (bufferQueue s)) \<Longrightarrow>
   sorted (map sequenceNumber (bufferQueue (fst (handleMessage ev s))))"
  by (cases ev) (simp_all add: handleMessage_def Let_def)

lemma sorted_process:
  "sorted (map sequenceNumber (bufferQueue s)) \<Longrightarrow>
   sorted (map sequenceNumber (bufferQueue (fst (process channel s))))"
  by (cases "bufferQueue s") (simp_all add: bufferQueue_process)

lemma sorted_run:
  "sorted (map sequenceNumber (bufferQueue s)) \<Longrightarrow>
   sorted (map sequenceNumber (bufferQueue (run evs s)))"
proof (induction evs arbitrary: s)
  case Nil
  then show ?case by simp
next
  case (Cons e evs)
  then show ?case
    by (cases e) (simp_all add: sorted_handleMessage sorted_process)
qed

lemma loadNextBuffer_head:
  "bufferQueue s = f # q \<Longrightarrow>
   fst (loadNextBuffer s) \<and> currentBuffer (snd (loadNextBuffer s)) = Some (data f) \<and>
   currentMark (snd (loadNextBuffer s)) = markName f \<and> bufferQueue (snd (loadNextBuffer s)) = q"
  by (simp add: loadNextBuffer_def)


lemma enqueued534_queue:
  "bufferQueue (enqueued534 d5 m5 d3 m3 d4 m4) =
     [\<lparr>data = d3, markName = orNull m3, sequenceNumber = 3\<rparr>,
      \<lparr>data = d4, markName = orNull m4, sequenceNumber = 4\<rparr>,
      \<lparr>data = d5, markName = orNull m5, sequenceNumber = 5\<rparr>]"
  by (simp add: enqueued534_def handleMessage_def newProcessor_def)

lemma enqueued534_current: "currentBuffer (enqueued534 d5 m5 d3 m3 d4 m4) = None"
  by (simp add: enqueued534_def handleMessage_def newProcessor_def)

























section \<open>Facts about the session\<close>

lemma openPhone_fields:
  "isDisconnecting openPhone = False" "wsRef openPhone = Some OPEN"
  "sequenceNumberRef openPhone = 7" "callSidRef openPhone = Some ''CA1''"
  "streamSidRef openPhone = Some ''MZ1''" "audioContextRef openPhone = True"
  "ulawDecoderNodeRef openPhone = True" "pendingMarksRef openPhone = []"
  "pendingMarkFromServerRef openPhone = None" "currentSourceRef openPhone = False"
  by (simp_all add: openPhone_def)

lemma disconnect_sets_flag: "isDisconnecting (fst (disconnectFromCall s))"
proof (cases "isDisconnecting s")
  case True
  then show ?thesis by (simp add: disconnectFromCall_def)
next
  case False
  then show ?thesis
    by (simp add: disconnectFromCall_def split_def Let_def)
qed

lemma disconnect_noop:
  "isDisconnecting s \<Longrightarrow> disconnectFromCall s = (s, [ConsoleLog ''Disconnecting from call''])"
  by (simp add: disconnectFromCall_def)

lemma disconnect_again:
  "disconnectFromCall (fst (disconnectFromCall s)) =
     (fst (disconnectFromCall s), [ConsoleLog ''Disconnecting from call''])"
  by (rule disconnect_noop) (rule disconnect_sets_flag)

lemma disconnect_open:
  assumes "\<not> isDisconnecting s" and "wsRef s = Some OPEN"
  shows "disconnectFromCall s =
     (s\<lparr>sequenceNumberRef := sequenceNumberRef s + 1, wsRef := None,
        ulawDecoderNodeRef := False, audioContextRef := False, isDisconnecting := True\<rparr>,
      [ConsoleLog ''Disconnecting from call'',
       WsSend (StopEnvelope (sequenceNumberRef s) (callSidRef s) (streamSidRef s)),
       AddLog ''Sent stop message to media server'' Info,
       SetTimeout 100 CloseAfterStop,
       AddLog ''WebSocket connection closed'' Info,
       WsClose 1000 ''User disconnected'',
       AddLog ''WebSocket connection closed'' Success] @
      (if audioContextRef s then [AudioContextClose, AddLog ''Audio context closed'' Info] else []))"
  using assms
  by (simp add: disconnectFromCall_def closeMediaServerConnection_def sendMessageToClient_def)








lemma pendingMarks_stay_empty:
  "pendingMarksRef s = [] \<Longrightarrow>
   pendingMarksRef (fst (handleWebSocketMessage base64ToUint8Array now t message s)) = []"
  by (cases message)
     (simp_all add: handleWebSocketMessage_def processMediaMessage_def clearAudioBuffer_def
        case_prod_beta split: sum.splits option.splits)

lemma pendingMarks_stay_empty_run:
  "pendingMarksRef s = [] \<Longrightarrow>
   pendingMarksRef (fst (handleWebSocketMessages base64ToUint8Array now t messages s)) = []"
proof (induction messages arbitrary: s)
  case Nil
  then show ?case by simp
next
  case (Cons message messages)
  from Cons.prems have
    "pendingMarksRef (fst (handleWebSocketMessage base64ToUint8Array now t message s)) = []"
    by (rule pendingMarks_stay_empty)
  then show ?case
    using Cons.IH by (simp add: case_prod_beta)
qed

lemma clear_sends_nothing:
  "pendingMarksRef s = [] \<Longrightarrow> sends (snd (clearAudioBuffer now t s)) = []"
  by (auto simp: clearAudioBuffer_def sends_def)

lemma handleMessage_never_reports:
  "BufferProcessed mark \<notin> set (snd (handleMessage ev s))"
  by (cases ev) (simp_all add: handleMessage_def Let_def)

section \<open>The claims\<close>

text \<open>
  C1, as stated, fails in its last clause: the table has no asymmetry at the most
  extreme negative code. The code \<open>0x00\<close> gives \<open>-32124\<close>, and its positive
  counterpart \<open>0x80\<close> gives \<open>32124\<close>, the exact negation.
\<close>

theorem extreme_codes_symmetric:
  "initMuLawTable ! 0x00 = -32124 \<and> initMuLawTable ! 0x80 = 32124 \<and>
   initMuLawTable ! 0x00 = - (initMuLawTable ! 0x80)"
  using reference_extremes by (simp add: initMuLawTable_reference)

text \<open>
  C1, amended. The table that \<open>initMuLawTable\<close> builds has 256 entries and is, entry for
  entry, the reference decoding table of the telephony codec, which in turn is the
  table of the G.711 decoding rule. The table is symmetric: the entry of the code
  \<open>b + 128\<close> is the negation of the entry of the code \<open>b\<close>, for the most negative code
  \<open>0x00\<close> (\<open>-32124\<close>) as for every other, and the two zero codes \<open>0x7F\<close> and \<open>0xFF\<close>
  both give 0.
\<close>

theorem muLawTable_matches_reference:
  "length initMuLawTable = 256 \<and> initMuLawTable = g711_ulaw_reference \<and>
   g711_ulaw_reference = map g711_expand [0..<256] \<and>
   drop 128 initMuLawTable = map uminus (take 128 initMuLawTable) \<and>
   initMuLawTable ! 0x00 = -32124 \<and> initMuLawTable ! 0x80 = 32124 \<and>
   initMuLawTable ! 0x7F = 0 \<and> initMuLawTable ! 0xFF = 0"
  using length_initMuLawTable reference_by_rule reference_antisymmetric reference_extremes
  by (simp add: initMuLawTable_reference)

text \<open>
  C2, as stated, fails at the byte \<open>0x7F\<close>: it decodes to the sample 0, and the
  encoder turns 0 into \<open>0xFF\<close>.
\<close>

theorem roundtrip_fails_at_7F:
  "encodeSample (decodeMuLaw 0x7F) = 0xFF \<and> encodeSample (decodeMuLaw 0x7F) \<noteq> 0x7F"
  by (simp add: encode_decode)

text \<open>
  C2, amended. Encoding the decoded sample gives the byte back for every byte but
  \<open>0x7F\<close>, and gives \<open>0xFF\<close> for \<open>0x7F\<close>: encoder and decoder are inverse on the 255
  codes other than \<open>0x7F\<close>.
\<close>

theorem roundtrip_except_negative_zero:
  "encodeSample (decodeMuLaw b) = (if b = 0x7F then 0xFF else b)"
  by (rule encode_decode)

text \<open>
  C3. Frames numbered 5, 3 and 4, arriving in that order (payloads and marker names
  arbitrary), stand in the queue in the order 3, 4, 5, and the render calls that follow
  put out the samples of frame 3, then of frame 4, then of frame 5, quantum by quantum.
  After any sequence of messages and render calls the queue is sorted by
  \<open>sequenceNumber\<close>, and \<open>loadNextBuffer\<close> on a non-empty queue takes its first frame,
  which has the lowest number.
\<close>

theorem frames_5_3_4_drain_in_order:
  "0 < n \<Longrightarrow>
   map sequenceNumber (bufferQueue (enqueued534 d5 m5 d3 m3 d4 m4)) = [3, 4, 5] \<and>
   map fst (fst (renders n (length (quanta n d3 @ quanta n d4 @ quanta n d5))
                   (enqueued534 d5 m5 d3 m3 d4 m4))) =
     quanta n d3 @ quanta n d4 @ quanta n d5 \<and>
   sorted (map sequenceNumber (bufferQueue (run evs newProcessor))) \<and>
   (\<forall>f q. bufferQueue (run evs newProcessor) = f # q \<longrightarrow>
      fst (loadNextBuffer (run evs newProcessor)) \<and>
      currentBuffer (snd (loadNextBuffer (run evs newProcessor))) = Some (data f) \<and>
      (\<forall>g \<in> set q. sequenceNumber f \<le> sequenceNumber g))"
proof -
  assume n: "0 < n"
  let ?s = "enqueued534 d5 m5 d3 m3 d4 m4"
  have a: "map sequenceNumber (bufferQueue ?s) = [3, 4, 5]"
    by (simp add: enqueued534_queue)
  have "map fst (fst (renders n (numCalls n (bufferQueue ?s)) ?s)) =
      concat (map (\<lambda>g. quanta n (data g)) (bufferQueue ?s))"
    using n enqueued534_current by (rule rendered_prefix) simp
  then have b: "map fst (fst (renders n (length (quanta n d3 @ quanta n d4 @ quanta n d5)) ?s)) =
      quanta n d3 @ quanta n d4 @ quanta n d5"
    by (simp add: enqueued534_queue numCalls_def)
  have c: "sorted (map sequenceNumber (bufferQueue (run evs newProcessor)))"
    by (rule sorted_run) (simp add: newProcessor_def)
  have d: "\<forall>f q. bufferQueue (run evs newProcessor) = f # q \<longrightarrow>
      fst (loadNextBuffer (run evs newProcessor)) \<and>
      currentBuffer (snd (loadNextBuffer (run evs newProcessor))) = Some (data f) \<and>
      (\<forall>g \<in> set q. sequenceNumber f \<le> sequenceNumber g)"
  proof (intro allI impI)
    fix f q
    assume q: "bufferQueue (run evs newProcessor) = f # q"
    with c have "\<forall>g \<in> set q. sequenceNumber f \<le> sequenceNumber g"
      by simp
    with loadNextBuffer_head [OF q] show
      "fst (loadNextBuffer (run evs newProcessor)) \<and>
       currentBuffer (snd (loadNextBuffer (run evs newProcessor))) = Some (data f) \<and>
       (\<forall>g \<in> set q. sequenceNumber f \<le> sequenceNumber g)"
      by simp
  qed
  from a b c d show ?thesis by simp
qed

text \<open>
  C3, at a quantum of 2 samples with payloads of 1, 3 and 2 bytes.
\<close>

theorem frames_5_3_4_drain_in_order_witness:
  "map fst (fst (renders 2 4 (enqueued534 [0xFF] None [0, 1, 2] None [3, 4] None))) =
     [[decodeMuLaw 0, decodeMuLaw 1], [decodeMuLaw 2, 0], [decodeMuLaw 3, decodeMuLaw 4],
      [decodeMuLaw 0xFF, 0]] \<and>
   fst (loadNextBuffer (run [Message (Decode [9] None 9), Message (Decode [7] None 7)] newProcessor))"
  using frames_5_3_4_drain_in_order [of 2 "[0xFF]" None "[0, 1, 2]" None "[3, 4]" None
      "[Message (Decode [9] None 9), Message (Decode [7] None 7)]"]
  by (simp add: quanta_def blocks.simps handleMessage_def newProcessor_def loadNextBuffer_def
      eval_nat_numeral
      del: renders.simps)




text \<open>
  C5, on the code. Two frames marked \<open>m1\<close> and \<open>m2\<close> arrive and then \<open>clear\<close>. The
  session posts both frames and the clear message to the worklet and sends no
  envelope at all: \<open>pendingMarksRef\<close>, whose elements \<open>clearAudioBuffer\<close> reports, is
  never added to (\<open>pendingMarks_stay_empty\<close>, \<open>clear_sends_nothing\<close>). The worklet
  drops both frames with their marker names and answers only \<open>cleared\<close>, from which
  the main thread sends no mark either. The processor is left with no buffer, and
  every later render call puts out silence.
\<close>

theorem clear_reports_no_marks:
  "postsToDecoder (snd (handleWebSocketMessages atob0 now t clearScenario openPhone)) =
     [Decode [0] (Some ''m1'') 1, Decode [0] (Some ''m2'') 2, ClearMsg] \<and>
   sends (snd (handleWebSocketMessages atob0 now t clearScenario openPhone)) = [] \<and>
   snd (handleMessages [Decode [0] (Some ''m1'') 1, Decode [0] (Some ''m2'') 2, ClearMsg]
          newProcessor) =
     [BufferQueued 1 1, BufferQueued 1 2, Cleared] \<and>
   reportedMarks now (fst (handleWebSocketMessages atob0 now t clearScenario openPhone))
     [BufferQueued 1 1, BufferQueued 1 2, Cleared] = [] \<and>
   bufferQueue clearedProcessor = [] \<and> currentBuffer clearedProcessor = None \<and>
   fst (renders n k clearedProcessor) = replicate k (silence n, [])"
proof -
  have a: "handleWebSocketMessages atob0 now t clearScenario openPhone =
     (openPhone\<lparr>nextStartTimeRef := t\<rparr>,
      [AddLog ''Received mark'' Info, AddLog ''Mark received: m1'' Info,
       AddLog ''Received media'' Info, PostToDecoder (Decode [0] (Some ''m1'') 1),
       AddLog ''Queued 1 bytes in decoder worklet'' Info,
       AddLog ''Received mark'' Info, AddLog ''Mark received: m2'' Info,
       AddLog ''Received media'' Info, PostToDecoder (Decode [0] (Some ''m2'') 2),
       AddLog ''Queued 1 bytes in decoder worklet'' Info,
       AddLog ''Received clear'' Info, AddLog ''Clear received - stopping audio playback'' Info,
       PostToDecoder ClearMsg, AddLog ''Sent clear message to audio worklet'' Info])"
    by (simp add: clearScenario_def openPhone_def handleWebSocketMessage_def
        processMediaMessage_def clearAudioBuffer_def orNull_def atob0_def)
  have b: "handleMessages [Decode [0] (Some ''m1'') 1, Decode [0] (Some ''m2'') 2, ClearMsg]
      newProcessor =
     (newProcessor, [BufferQueued 1 1, BufferQueued 1 2, Cleared])"
    by (simp add: handleMessage_def newProcessor_def orNull_def)
  have c: "bufferQueue clearedProcessor = []" "currentBuffer clearedProcessor = None"
    unfolding clearedProcessor_def b by (simp_all add: newProcessor_def)
  have d: "fst (renders n k clearedProcessor) = replicate k (silence n, [])"
    using c(2) c(1) by (rule renders_idle)
  show ?thesis
    unfolding a b
    by (simp add: c d postsToDecoder_def sends_def reportedMarks_def markNames_def
        decoderOnMessage_def)
qed

text \<open>
  C6. A second \<open>_disconnectFromCall\<close> right after a first changes no cell and does
  nothing but the \<open>console.log\<close> that precedes the guard. When the first call finds
  the socket open, the two calls together send one stop envelope, with the call and
  stream identities, and close the socket once; the timer the first call has set
  closes nothing more when it fires.
\<close>

theorem disconnect_idempotent:
  "(\<not> isDisconnecting s \<and> wsRef s = Some OPEN \<longrightarrow>
      sends (snd (disconnectFromCall s) @ snd (disconnectFromCall (fst (disconnectFromCall s)))) =
        [StopEnvelope (sequenceNumberRef s) (callSidRef s) (streamSidRef s)] \<and>
      closes (snd (disconnectFromCall s) @ snd (disconnectFromCall (fst (disconnectFromCall s)))) =
        [(1000, ''User disconnected'')] \<and>
      closeAfterStop (fst (disconnectFromCall s)) = (fst (disconnectFromCall s), [])) \<and>
   disconnectFromCall (fst (disconnectFromCall s)) =
     (fst (disconnectFromCall s), [ConsoleLog ''Disconnecting from call''])"
  by (simp add: disconnect_again)
     (auto simp: disconnect_open sends_def closes_def closeAfterStop_def)

text \<open>
  C6, for the session \<open>openPhone\<close>.
\<close>

theorem disconnect_idempotent_witness:
  "sends (snd (disconnectFromCall openPhone) @
          snd (disconnectFromCall (fst (disconnectFromCall openPhone)))) =
     [StopEnvelope 7 (Some ''CA1'') (Some ''MZ1'')] \<and>
   closes (snd (disconnectFromCall openPhone) @
           snd (disconnectFromCall (fst (disconnectFromCall openPhone)))) =
     [(1000, ''User disconnected'')] \<and>
   disconnectFromCall (fst (disconnectFromCall openPhone)) =
     (fst (disconnectFromCall openPhone), [ConsoleLog ''Disconnecting from call''])"
proof -
  have "\<not> isDisconnecting openPhone \<and> wsRef openPhone = Some OPEN"
    by (simp add: openPhone_fields)
  with disconnect_idempotent [of openPhone] show ?thesis
    unfolding openPhone_fields by blast
qed

text \<open>
  C7, on the code. On a session with an open socket \<open>_disconnectFromCall\<close> sends
  the stop envelope and sets the 100 ms timer, and then closes the socket with code
  1000 in the same call, before it returns. When the timer fires it finds no socket and
  does nothing.
\<close>

theorem disconnect_closes_before_delay:
  "snd (disconnectFromCall openPhone) =
     [ConsoleLog ''Disconnecting from call'',
      WsSend (StopEnvelope 7 (Some ''CA1'') (Some ''MZ1'')),
      AddLog ''Sent stop message to media server'' Info,
      SetTimeout 100 CloseAfterStop,
      AddLog ''WebSocket connection closed'' Info,
      WsClose 1000 ''User disconnected'',
      AddLog ''WebSocket connection closed'' Success,
      AudioContextClose,
      AddLog ''Audio context closed'' Info] \<and>
   wsRef (fst (disconnectFromCall openPhone)) = None \<and>
   closeAfterStop (fst (disconnectFromCall openPhone)) = (fst (disconnectFromCall openPhone), [])"
proof -
  have "\<not> isDisconnecting openPhone" and "wsRef openPhone = Some OPEN"
    by (simp_all add: openPhone_def)
  then have "disconnectFromCall openPhone =
     (openPhone\<lparr>sequenceNumberRef := sequenceNumberRef openPhone + 1, wsRef := None,
        ulawDecoderNodeRef := False, audioContextRef := False, isDisconnecting := True\<rparr>,
      [ConsoleLog ''Disconnecting from call'',
       WsSend (StopEnvelope (sequenceNumberRef openPhone) (callSidRef openPhone) (streamSidRef openPhone)),
       AddLog ''Sent stop message to media server'' Info,
       SetTimeout 100 CloseAfterStop,
       AddLog ''WebSocket connection closed'' Info,
       WsClose 1000 ''User disconnected'',
       AddLog ''WebSocket connection closed'' Success] @
      (if audioContextRef openPhone then [AudioContextClose, AddLog ''Audio context closed'' Info] else []))"
    by (rule disconnect_open)
  then show ?thesis
    by (simp add: closeAfterStop_def openPhone_fields)
qed

text \<open>
  C8. A mark envelope with a non-empty name puts the name into the single cell
  \<open>pendingMarkFromServerRef\<close>, over whatever was there; the next media frame that goes
  to the decoder carries the name in the cell and empties it. So of two marks ahead of
  a frame the frame carries the newer, and the frame after it carries none.
\<close>

theorem mark_slot_single_most_recent:
  "older \<noteq> [] \<Longrightarrow> newer \<noteq> [] \<Longrightarrow> ulawDecoderNodeRef s \<Longrightarrow>
   base64ToUint8Array payload = Inr bytes \<Longrightarrow> base64ToUint8Array payload' = Inr bytes' \<Longrightarrow>
   pendingMarkFromServerRef
     (fst (handleWebSocketMessages base64ToUint8Array now t [InMark (Some older)] s)) = Some older \<and>
   pendingMarkFromServerRef
     (fst (handleWebSocketMessages base64ToUint8Array now t
        [InMark (Some older), InMark (Some newer)] s)) = Some newer \<and>
   pendingMarkFromServerRef
     (fst (handleWebSocketMessages base64ToUint8Array now t
        [InMark (Some older), InMark (Some newer), InMedia sn chunk payload] s)) = None \<and>
   postsToDecoder
     (snd (handleWebSocketMessages base64ToUint8Array now t
        [InMark (Some older), InMark (Some newer), InMedia sn chunk payload,
         InMedia sn' chunk' payload'] s)) =
     [Decode bytes (Some newer) (if sn \<noteq> 0 then sn else chunk),
      Decode bytes' None (if sn' \<noteq> 0 then sn' else chunk')]"
  by (simp add: handleWebSocketMessage_def processMediaMessage_def orNull_def postsToDecoder_def)

text \<open>
  C8, for the marks \<open>a\<close> and \<open>b\<close> ahead of two frames.
\<close>

theorem mark_slot_single_most_recent_witness:
  "postsToDecoder
     (snd (handleWebSocketMessages atob0 ''1700000000000'' 0
        [InMark (Some ''a''), InMark (Some ''b''), InMedia 1 1 ''AA=='', InMedia 2 2 ''AA==''] openPhone)) =
     [Decode [0] (Some ''b'') 1, Decode [0] None 2]"
  using mark_slot_single_most_recent [of "''a''" "''b''" openPhone atob0 "''AA==''" "[0]" "''AA==''" "[0]"
      "''1700000000000''" 0 1 1 2 2]
  by (simp add: openPhone_fields atob0_def)

text \<open>
  C9. With no current buffer and an empty queue, \<open>process\<close> sets every sample of
  the output channel to 0, whatever the channel held, and posts nothing.
\<close>

theorem process_underrun_is_silence:
  "currentBuffer s = None \<Longrightarrow> bufferQueue s = [] \<Longrightarrow>
   fst (snd (process channel s)) = replicate (length channel) 0 \<and>
   snd (snd (process channel s)) = []"
  by (simp add: process_def loadNextBuffer_def)

text \<open>
  C9, for a channel of 160 samples that held ones.
\<close>

theorem process_underrun_is_silence_witness:
  "fst (snd (process (replicate 160 1) newProcessor)) = replicate 160 0"
  using process_underrun_is_silence [of newProcessor "replicate 160 1"]
  by (simp add: newProcessor_def)

text \<open>
  C10. Every table entry is at most 32124 in magnitude, so every decoded sample lies
  strictly between \<open>-1\<close> and 1.
\<close>

theorem decodeMuLaw_in_open_unit_interval:
  "\<bar>initMuLawTable ! unat b\<bar> \<le> 32124 \<and> -1 < decodeMuLaw b \<and> decodeMuLaw b < 1"
proof -
  have a: "\<bar>initMuLawTable ! unat b\<bar> \<le> 32124"
    by (rule table_entry_bound)
  then have "\<bar>real_of_int (initMuLawTable ! unat b)\<bar> \<le> 32124"
    by linarith
  then show ?thesis
    using a by (simp add: decodeMuLaw_def abs_le_iff)
qed

end
